theory Spec2Isabelle
  imports Complex_Main "HOL-Library.Log_Nat"
begin

section \<open>The host environment of the landing page\<close>

text \<open>
  The hooks of \<^verbatim>\<open>EduSpharLanding.jsx\<close> read and write ambient browser state:
  \<^verbatim>\<open>window.localStorage\<close>, \<^verbatim>\<open>window.matchMedia\<close> and the class list of the document
  root. The host is a record that every operation takes and returns. A JavaScript
  exception is a value of type \<open>exn\<close>; an operation that may throw returns
  \<open>exn + 'a\<close>, with \<open>Inl\<close> for the exception.
\<close>

datatype exn = SecurityError | QuotaExceededError

text \<open>
  How \<^verbatim>\<open>window.localStorage\<close> behaves:
  \<^item> \<open>Absent\<close>: the property is undefined or null;
  \<^item> \<open>Denied\<close>: reading the property throws (storage blocked);
  \<^item> \<open>Full\<close>: reads work, every \<^verbatim>\<open>setItem\<close> throws (quota exceeded);
  \<^item> \<open>Avail\<close>: reads and writes work.
\<close>

datatype storage_mode = Absent | Denied | Full | Avail

text \<open>\<^verbatim>\<open>window.matchMedia\<close>: missing, or answering the dark colour-scheme query.\<close>

datatype media = NoMatchMedia | Matches bool

text \<open>Every call that reaches \<^verbatim>\<open>getItem\<close> or \<^verbatim>\<open>setItem\<close> of the store is journalled.\<close>

datatype access = GetItem string | SetItem string string

record host =
  hasWindow :: bool
  hasDocument :: bool
  storageMode :: storage_mode
  items :: "string \<Rightarrow> string option"
  journal :: "access list"
  colorScheme :: media
  rootDark :: bool

text \<open>\<^verbatim>\<open>window.localStorage?.getItem?.(key)\<close>\<close>

definition getItem :: "string \<Rightarrow> host \<Rightarrow> (exn + string option) \<times> host" where
  "getItem k h =
     (case storageMode h of
        Absent \<Rightarrow> (Inr None, h)
      | Denied \<Rightarrow> (Inl SecurityError, h)
      | Full \<Rightarrow> (Inr (items h k), h\<lparr>journal := journal h @ [GetItem k]\<rparr>)
      | Avail \<Rightarrow> (Inr (items h k), h\<lparr>journal := journal h @ [GetItem k]\<rparr>))"

text \<open>\<^verbatim>\<open>if (window.localStorage) window.localStorage.setItem(key, value)\<close>\<close>

definition setItem :: "string \<Rightarrow> string \<Rightarrow> host \<Rightarrow> (exn + unit) \<times> host" where
  "setItem k v h =
     (case storageMode h of
        Absent \<Rightarrow> (Inr (), h)
      | Denied \<Rightarrow> (Inl SecurityError, h)
      | Full \<Rightarrow> (Inl QuotaExceededError, h\<lparr>journal := journal h @ [SetItem k v]\<rparr>)
      | Avail \<Rightarrow> (Inr (), h\<lparr>items := (items h)(k \<mapsto> v),
                                journal := journal h @ [SetItem k v]\<rparr>))"

text \<open>
  \<^verbatim>\<open>window.matchMedia && window.matchMedia("(prefers-color-scheme: dark)").matches\<close>
\<close>

definition prefersDark :: "host \<Rightarrow> bool" where
  "prefersDark h = (case colorScheme h of NoMatchMedia \<Rightarrow> False | Matches b \<Rightarrow> b)"

section \<open>useTheme\<close>

definition theme_key :: string where
  "theme_key = ''edusphar-theme''"

text \<open>
  The \<^verbatim>\<open>try\<close> block of \<^verbatim>\<open>getInitial\<close>. \<open>Inr (Some v)\<close>: the block returned \<open>v\<close>;
  \<open>Inr None\<close>: the block ran to its end without returning; \<open>Inl e\<close>: it threw \<open>e\<close>.
\<close>

definition getInitial_try :: "host \<Rightarrow> (exn + string option) \<times> host" where
  "getInitial_try h =
     (if \<not> hasWindow h then (Inr (Some ''light''), h)
      else case getItem theme_key h of
             (Inl e, h') \<Rightarrow> (Inl e, h')
           | (Inr stored, h') \<Rightarrow>
               if stored = Some ''dark'' \<or> stored = Some ''light'' then (Inr stored, h')
               else if prefersDark h' then (Inr (Some ''dark''), h')
               else (Inr None, h'))"

text \<open>
  \<^verbatim>\<open>getInitial\<close>: the \<^verbatim>\<open>catch\<close> clause is empty, and both it and the end of the \<^verbatim>\<open>try\<close>
  block fall through to \<^verbatim>\<open>return "light"\<close>.
\<close>

definition getInitial :: "host \<Rightarrow> (exn + string) \<times> host" where
  "getInitial h =
     (case getInitial_try h of
        (Inr (Some v), h') \<Rightarrow> (Inr v, h')
      | (Inr None, h') \<Rightarrow> (Inr ''light'', h')
      | (Inl e, h') \<Rightarrow> (Inr ''light'', h'))"

text \<open>
  The effect of \<^verbatim>\<open>useTheme\<close>, run after the first render and after every change of
  \<^verbatim>\<open>theme\<close>: set or clear the class \<^verbatim>\<open>dark\<close> on the document root, then persist the
  theme inside a \<^verbatim>\<open>try\<close> whose \<^verbatim>\<open>catch\<close> ignores the exception.
\<close>

definition theme_effect :: "string \<Rightarrow> host \<Rightarrow> (exn + unit) \<times> host" where
  "theme_effect theme h =
     (let h1 = (if hasDocument h then h\<lparr>rootDark := (theme = ''dark'')\<rparr> else h)
      in if hasWindow h1
         then (case setItem theme_key theme h1 of
                 (Inl e, h2) \<Rightarrow> (Inr (), h2)
               | (Inr u, h2) \<Rightarrow> (Inr (), h2))
         else (Inr (), h1))"

text \<open>\<^verbatim>\<open>(t) => (t === "dark" ? "light" : "dark")\<close>\<close>

definition flip :: "string \<Rightarrow> string" where
  "flip t = (if t = ''dark'' then ''light'' else ''dark'')"

text \<open>
  The hook as a state machine: the theme held by \<^verbatim>\<open>useState\<close> and the host. An
  operation yields \<open>Inl e\<close> when an exception escapes it.
\<close>

definition theme_mount :: "host \<Rightarrow> exn + (string \<times> host)" where
  "theme_mount h =
     (case getInitial h of
        (Inl e, h1) \<Rightarrow> Inl e
      | (Inr t, h1) \<Rightarrow>
          (case theme_effect t h1 of
             (Inl e, h2) \<Rightarrow> Inl e
           | (Inr u, h2) \<Rightarrow> Inr (t, h2)))"

definition toggle :: "string \<times> host \<Rightarrow> exn + (string \<times> host)" where
  "toggle s =
     (let t = flip (fst s)
      in if t = fst s then Inr s
         else (case theme_effect t (snd s) of
                 (Inl e, h2) \<Rightarrow> Inl e
               | (Inr u, h2) \<Rightarrow> Inr (t, h2)))"

section \<open>AnnouncementBar\<close>

definition storageKey :: string where
  "storageKey = ''edusphar-announce-dismissed''"

text \<open>
  \<^verbatim>\<open>getInitial\<close> of the banner: \<^verbatim>\<open>false\<close> without a window and when the read throws,
  otherwise whether the stored string is \<^verbatim>\<open>"1"\<close>.
\<close>

definition banner_getInitial :: "host \<Rightarrow> (exn + bool) \<times> host" where
  "banner_getInitial h =
     (if \<not> hasWindow h then (Inr False, h)
      else case getItem storageKey h of
             (Inl e, h') \<Rightarrow> (Inr False, h')
           | (Inr stored, h') \<Rightarrow> (Inr (stored = Some ''1''), h'))"

text \<open>
  The effect with dependency list \<^verbatim>\<open>[dismissed]\<close>: it runs after the first render and
  after every change of \<^verbatim>\<open>dismissed\<close>.
\<close>

definition banner_effect :: "bool \<Rightarrow> host \<Rightarrow> (exn + unit) \<times> host" where
  "banner_effect dismissed h =
     (if hasWindow h
      then (case setItem storageKey (if dismissed then ''1'' else ''0'') h of
              (Inl e, h2) \<Rightarrow> (Inr (), h2)
            | (Inr u, h2) \<Rightarrow> (Inr (), h2))
      else (Inr (), h))"

definition banner_mount :: "host \<Rightarrow> exn + (bool \<times> host)" where
  "banner_mount h =
     (case banner_getInitial h of
        (Inl e, h1) \<Rightarrow> Inl e
      | (Inr d, h1) \<Rightarrow>
          (case banner_effect d h1 of
             (Inl e, h2) \<Rightarrow> Inl e
           | (Inr u, h2) \<Rightarrow> Inr (d, h2)))"

text \<open>
  The Dismiss button calls \<^verbatim>\<open>setDismissed(true)\<close>. Setting the state to its current
  value runs no effect.
\<close>

definition dismiss :: "bool \<times> host \<Rightarrow> exn + (bool \<times> host)" where
  "dismiss s =
     (if fst s then Inr s
      else (case banner_effect True (snd s) of
              (Inl e, h2) \<Rightarrow> Inl e
            | (Inr u, h2) \<Rightarrow> Inr (True, h2)))"

section \<open>The page: two theme hooks and the banner\<close>

text \<open>
  \<^verbatim>\<open>EduSpharLanding\<close> calls \<^verbatim>\<open>useTheme\<close> itself, for the floating toggle, and renders
  \<^verbatim>\<open>AnnouncementBar\<close> and then \<^verbatim>\<open>Header\<close>, which calls \<^verbatim>\<open>useTheme\<close> again: the page
  holds two independent theme states. The state initialisers run during the render,
  the parent's before its children's; the effects run after it, those of the children
  in their order before the parent's.
\<close>

record page =
  themePage :: string
  themeHeader :: string
  dismissed :: bool
  env :: host

text \<open>
  The user actions that reach the store: the toggle button of the header, the floating
  toggle button of the page, and the Dismiss button of the banner.
\<close>

datatype ui_event = ClickHeaderToggle | ClickFloatingToggle | ClickDismiss

definition page_mount :: "host \<Rightarrow> exn + page" where
  "page_mount h =
     (case getInitial h of
        (Inl e, h1) \<Rightarrow> Inl e
      | (Inr tp, h1) \<Rightarrow>
     (case banner_getInitial h1 of
        (Inl e, h2) \<Rightarrow> Inl e
      | (Inr d, h2) \<Rightarrow>
     (case getInitial h2 of
        (Inl e, h3) \<Rightarrow> Inl e
      | (Inr th, h3) \<Rightarrow>
     (case banner_effect d h3 of
        (Inl e, h4) \<Rightarrow> Inl e
      | (Inr u, h4) \<Rightarrow>
     (case theme_effect th h4 of
        (Inl e, h5) \<Rightarrow> Inl e
      | (Inr u, h5) \<Rightarrow>
     (case theme_effect tp h5 of
        (Inl e, h6) \<Rightarrow> Inl e
      | (Inr u, h6) \<Rightarrow>
          Inr \<lparr>themePage = tp, themeHeader = th, dismissed = d, env = h6\<rparr>))))))"

definition page_step :: "ui_event \<Rightarrow> page \<Rightarrow> exn + page" where
  "page_step ev p =
     (case ev of
        ClickHeaderToggle \<Rightarrow>
          (case toggle (themeHeader p, env p) of
             Inl e \<Rightarrow> Inl e
           | Inr (t, h) \<Rightarrow> Inr (p\<lparr>themeHeader := t, env := h\<rparr>))
      | ClickFloatingToggle \<Rightarrow>
          (case toggle (themePage p, env p) of
             Inl e \<Rightarrow> Inl e
           | Inr (t, h) \<Rightarrow> Inr (p\<lparr>themePage := t, env := h\<rparr>))
      | ClickDismiss \<Rightarrow>
          (case dismiss (dismissed p, env p) of
             Inl e \<Rightarrow> Inl e
           | Inr (d, h) \<Rightarrow> Inr (p\<lparr>dismissed := d, env := h\<rparr>)))"

fun page_run :: "ui_event list \<Rightarrow> exn + page \<Rightarrow> exn + page" where
  "page_run [] r = r"
| "page_run (ev # evs) (Inl e) = Inl e"
| "page_run (ev # evs) (Inr p) = page_run evs (page_step ev p)"

text \<open>The accesses the source makes: the two prefixed keys and their values.\<close>

fun access_ok :: "access \<Rightarrow> bool" where
  "access_ok (GetItem k) = (k = ''edusphar-theme'' \<or> k = ''edusphar-announce-dismissed'')"
| "access_ok (SetItem k v) =
     (k = ''edusphar-theme'' \<and> (v = ''dark'' \<or> v = ''light'')
      \<or> k = ''edusphar-announce-dismissed'' \<and> (v = ''0'' \<or> v = ''1''))"

text \<open>
  The same predicate with the key names as the specification writes them, \<^verbatim>\<open>theme\<close>
  and \<^verbatim>\<open>announce-dismissed\<close>.
\<close>

fun spec_access_ok :: "access \<Rightarrow> bool" where
  "spec_access_ok (GetItem k) = (k = ''theme'' \<or> k = ''announce-dismissed'')"
| "spec_access_ok (SetItem k v) =
     (k = ''theme'' \<and> (v = ''dark'' \<or> v = ''light'')
      \<or> k = ''announce-dismissed'' \<and> (v = ''0'' \<or> v = ''1''))"

section \<open>The specification's reading of the initial theme\<close>

text \<open>
  The persisted value is the entry of the store under the theme key, when there is a
  window with a store; the OS signal reports dark when there is a window whose
  \<^verbatim>\<open>matchMedia\<close> answers so.
\<close>

definition persisted :: "host \<Rightarrow> string option" where
  "persisted h =
     (if hasWindow h \<and> storageMode h \<noteq> Absent then items h theme_key else None)"

definition osDark :: "host \<Rightarrow> bool" where
  "osDark h = (hasWindow h \<and> prefersDark h)"

text \<open>Precedence persisted, then OS, then the default, as the specification words it.\<close>

definition spec_initial :: "string option \<Rightarrow> bool \<Rightarrow> string" where
  "spec_initial p os =
     (case p of
        Some v \<Rightarrow> if v = ''dark'' \<or> v = ''light'' then v
                  else if os then ''dark'' else ''light''
      | None \<Rightarrow> if os then ''dark'' else ''light'')"

text \<open>Concrete hosts: a browser with an empty store, and one whose store is blocked.\<close>

definition fresh_host :: host where
  "fresh_host = \<lparr>hasWindow = True, hasDocument = True, storageMode = Avail,
     items = Map.empty, journal = [], colorScheme = Matches True, rootDark = False\<rparr>"

definition denied_host :: host where
  "denied_host = fresh_host\<lparr>storageMode := Denied\<rparr>"

section \<open>JavaScript numbers\<close>

text \<open>
  A JavaScript number is an IEEE double. The finite ones are modelled by the rationals
  they denote, and every arithmetic operation rounds its exact result to the nearest
  number with a 53-bit significand, ties to the even one. The exponent is not bounded
  (no overflow to infinity, no subnormal numbers) and zero has no sign.
\<close>













section \<open>useRafCounter\<close>



















section \<open>useScrollHeader\<close>










section \<open>The mobile sheet of Header\<close>

text \<open>
  Elements are values of a type \<open>'e\<close>. \<open>sheet\<close> is what \<^verbatim>\<open>querySelectorAll\<close> finds in
  the sheet, in document order (the empty list also stands for a sheet that is not
  mounted, where the source gets \<^verbatim>\<open>undefined\<close>); \<open>doc\<close> is the tab order of the whole
  document while the sheet is shown; \<open>can e\<close> tells whether the element \<open>e\<close> can take
  focus, which \<^verbatim>\<open>document.body\<close> cannot.
\<close>

datatype key = Escape | Tab bool | OtherKey

text \<open>
  \<open>active\<close> is \<^verbatim>\<open>document.activeElement\<close>. \<open>trap\<close> is the closure of the running
  effect, the captured \<^verbatim>\<open>prev\<close> and \<^verbatim>\<open>focusable\<close>; it is \<open>None\<close> when the \<^verbatim>\<open>keydown\<close>
  listener is not attached.
\<close>

record 'e nav =
  mobileOpen :: bool
  active :: 'e
  trap :: "('e \<times> 'e list) option"

text \<open>\<^verbatim>\<open>e.focus()\<close>: nothing happens when \<open>e\<close> cannot take focus.\<close>

definition focus :: "('e \<Rightarrow> bool) \<Rightarrow> 'e \<Rightarrow> 'e nav \<Rightarrow> 'e nav" where
  "focus can e s = (if can e then s\<lparr>active := e\<rparr> else s)"

text \<open>\<^verbatim>\<open>arr.indexOf(x)\<close>, which is \<open>-1\<close> when \<open>x\<close> is not in the array.\<close>

fun indexOf :: "'e list \<Rightarrow> 'e \<Rightarrow> int" where
  "indexOf [] a = - 1"
| "indexOf (x # xs) a =
     (if x = a then 0 else (let i = indexOf xs a in if i < 0 then - 1 else i + 1))"

text \<open>
  The browser's own handling of Tab, when the handler has not prevented it: focus moves
  to the neighbour of the active element in the tab order, and to the first (with
  Shift the last) element when there is no such neighbour.
\<close>

fun after :: "'e list \<Rightarrow> 'e \<Rightarrow> 'e option" where
  "after (x # y # zs) a = (if x = a then Some y else after (y # zs) a)"
| "after xs a = None"

definition tab_default :: "'e list \<Rightarrow> bool \<Rightarrow> 'e nav \<Rightarrow> 'e nav" where
  "tab_default doc shift s =
     (let order = (if shift then rev doc else doc)
      in case after order (active s) of
           Some b \<Rightarrow> s\<lparr>active := b\<rparr>
         | None \<Rightarrow> (case order of [] \<Rightarrow> s | b # bs \<Rightarrow> s\<lparr>active := b\<rparr>))"

text \<open>The effect body when \<^verbatim>\<open>mobileOpen\<close> is true.\<close>

definition open_effect :: "('e \<Rightarrow> bool) \<Rightarrow> 'e list \<Rightarrow> 'e nav \<Rightarrow> 'e nav" where
  "open_effect can sheet s =
     (let prev = active s;
          s1 = (case sheet of [] \<Rightarrow> s | first # rest \<Rightarrow> focus can first s)
      in s1\<lparr>trap := Some (prev, sheet)\<rparr>)"

text \<open>The cleanup of that effect: the listener is removed and \<^verbatim>\<open>prev?.focus()\<close> runs.\<close>

definition close_cleanup :: "('e \<Rightarrow> bool) \<Rightarrow> 'e nav \<Rightarrow> 'e nav" where
  "close_cleanup can s =
     (case trap s of
        None \<Rightarrow> s
      | Some (prev, focusable) \<Rightarrow> (focus can prev s)\<lparr>trap := None\<rparr>)"

text \<open>
  \<^verbatim>\<open>setMobileOpen(b)\<close> and the render that follows: nothing when the state keeps its
  value, otherwise the cleanup of the previous effect run and the effect again.
\<close>

definition setMobileOpen :: "('e \<Rightarrow> bool) \<Rightarrow> 'e list \<Rightarrow> bool \<Rightarrow> 'e nav \<Rightarrow> 'e nav" where
  "setMobileOpen can sheet b s =
     (if b = mobileOpen s then s
      else (let s1 = close_cleanup can (s\<lparr>mobileOpen := b\<rparr>)
            in if b then open_effect can sheet s1 else s1))"

text \<open>A \<^verbatim>\<open>keydown\<close> event: the listener \<^verbatim>\<open>onKey\<close> when attached, then the default action.\<close>

definition onKey ::
  "('e \<Rightarrow> bool) \<Rightarrow> 'e list \<Rightarrow> 'e list \<Rightarrow> key \<Rightarrow> 'e nav \<Rightarrow> 'e nav" where
  "onKey can sheet doc k s =
     (case k of
        Escape \<Rightarrow> (if trap s = None then s else setMobileOpen can sheet False s)
      | OtherKey \<Rightarrow> s
      | Tab shift \<Rightarrow>
          (case trap s of
             None \<Rightarrow> tab_default doc shift s
           | Some (prev, focusable) \<Rightarrow>
               (case focusable of
                  [] \<Rightarrow> tab_default doc shift s
                | first # rest \<Rightarrow>
                    (let idx = indexOf focusable (active s)
                     in if shift \<and> idx = 0 then focus can (last focusable) s
                        else if \<not> shift \<and> idx = int (length focusable) - 1
                             then focus can first s
                        else tab_default doc shift s))))"

text \<open>
  The events of the header: the menu button, the close button of the sheet, a click on
  the overlay, a key, and a pointer action after which the element \<open>e\<close> is the active
  one (\<^verbatim>\<open>document.body\<close> when it lands on nothing that takes focus).
\<close>

datatype 'e nav_event = OpenMenu | CloseMenu | ClickOverlay | KeyDown key | PointerFocus 'e

fun nav_step ::
  "('e \<Rightarrow> bool) \<Rightarrow> 'e list \<Rightarrow> 'e list \<Rightarrow> 'e nav \<Rightarrow> 'e nav_event \<Rightarrow> 'e nav" where
  "nav_step can sheet doc s OpenMenu = setMobileOpen can sheet True s"
| "nav_step can sheet doc s CloseMenu = setMobileOpen can sheet False s"
| "nav_step can sheet doc s ClickOverlay = setMobileOpen can sheet False s"
| "nav_step can sheet doc s (KeyDown k) = onKey can sheet doc k s"
| "nav_step can sheet doc s (PointerFocus e) = s\<lparr>active := e\<rparr>"

definition nav_run ::
  "('e \<Rightarrow> bool) \<Rightarrow> 'e list \<Rightarrow> 'e list \<Rightarrow> 'e nav_event list \<Rightarrow> 'e nav \<Rightarrow> 'e nav" where
  "nav_run can sheet doc evs s = foldl (nav_step can sheet doc) s evs"

text \<open>The first render: the sheet is closed and no listener is attached.\<close>

definition nav_init :: "'e \<Rightarrow> 'e nav" where
  "nav_init a = \<lparr>mobileOpen = False, active = a, trap = None\<rparr>"

fun closing :: "'e nav_event \<Rightarrow> bool" where
  "closing CloseMenu = True"
| "closing ClickOverlay = True"
| "closing (KeyDown Escape) = True"
| "closing ev = False"

text \<open>
  The elements of the page that take focus, in document order: the skip link, the two
  controls of the banner, the header with its logo link, primary navigation, theme
  toggle, sign-up and menu buttons, then the sheet with its close button, four links and
  sign-up button, then the content of the page (one element stands for it) and the
  floating theme toggle, which is the last element of the page and is drawn above the
  overlay. \<open>Body\<close> is \<^verbatim>\<open>document.body\<close>, the active element when nothing has focus.
\<close>

datatype element =
    Body | SkipLink | BannerClaim | BannerDismiss
  | Logo | NavCourses | NavPrograms | NavPricing | NavAbout
  | ThemeToggle | SignUp | MenuButton
  | SheetClose | SheetCourses | SheetPrograms | SheetPricing | SheetAbout | SheetSignUp
  | PageContent | FloatingToggle

definition can_focus :: "element \<Rightarrow> bool" where
  "can_focus e = (e \<noteq> Body)"

definition sheet_elements :: "element list" where
  "sheet_elements =
     [SheetClose, SheetCourses, SheetPrograms, SheetPricing, SheetAbout, SheetSignUp]"

definition tab_order :: "element list" where
  "tab_order =
     [SkipLink, BannerClaim, BannerDismiss, Logo, NavCourses, NavPrograms, NavPricing,
      NavAbout, ThemeToggle, SignUp, MenuButton]
     @ sheet_elements @ [PageContent, FloatingToggle]"

section \<open>Auxiliary notions for the proofs\<close>

text \<open>The journal of a page, empty when the page failed with an exception.\<close>

definition page_journal :: "exn + page \<Rightarrow> access list" where
  "page_journal r = (case r of Inl e \<Rightarrow> [] | Inr p \<Rightarrow> journal (env p))"

text \<open>What holds of a mounted page between events.\<close>

definition page_ok :: "page \<Rightarrow> bool" where
  "page_ok p =
     (list_all access_ok (journal (env p))
      \<and> (themePage p = ''dark'' \<or> themePage p = ''light'')
      \<and> (themeHeader p = ''dark'' \<or> themeHeader p = ''light''))"

text \<open>The listener is attached exactly while the sheet is open.\<close>

definition nav_wf :: "'e nav \<Rightarrow> bool" where
  "nav_wf s = (mobileOpen s = (trap s \<noteq> None))"

section \<open>Properties of the theme and of the store\<close>

lemma getInitial_result:
  "\<exists>t. fst (getInitial h) = Inr t \<and> (t = ''dark'' \<or> t = ''light'')"
  by (cases "storageMode h")
     (auto simp: getInitial_def getInitial_try_def getItem_def split: option.splits)

lemma getInitial_journal:
  "journal (snd (getInitial h)) = journal h
   \<or> journal (snd (getInitial h)) = journal h @ [GetItem theme_key]"
  by (cases "storageMode h")
     (auto simp: getInitial_def getInitial_try_def getItem_def split: option.splits)

lemma getInitial_items: "items (snd (getInitial h)) = items h"
  by (cases "storageMode h")
     (auto simp: getInitial_def getInitial_try_def getItem_def split: option.splits)

lemma theme_effect_result: "fst (theme_effect t h) = Inr ()"
  by (cases "storageMode h") (auto simp: theme_effect_def setItem_def Let_def)

lemma theme_effect_journal:
  "journal (snd (theme_effect t h)) = journal h
   \<or> journal (snd (theme_effect t h)) = journal h @ [SetItem theme_key t]"
  by (cases "storageMode h") (auto simp: theme_effect_def setItem_def Let_def)

lemma theme_effect_root:
  "hasDocument h \<Longrightarrow> rootDark (snd (theme_effect t h)) = (t = ''dark'')"
  by (cases "storageMode h") (auto simp: theme_effect_def setItem_def Let_def)

lemma theme_effect_items:
  "storageMode h \<noteq> Avail \<Longrightarrow> items (snd (theme_effect t h)) = items h"
  by (cases "storageMode h") (auto simp: theme_effect_def setItem_def Let_def)

lemma banner_getInitial_result: "\<exists>d. fst (banner_getInitial h) = Inr d"
  by (cases "storageMode h") (auto simp: banner_getInitial_def getItem_def)

lemma banner_getInitial_journal:
  "journal (snd (banner_getInitial h)) = journal h
   \<or> journal (snd (banner_getInitial h)) = journal h @ [GetItem storageKey]"
  by (cases "storageMode h") (auto simp: banner_getInitial_def getItem_def)

lemma banner_effect_result: "fst (banner_effect d h) = Inr ()"
  by (cases "storageMode h") (auto simp: banner_effect_def setItem_def)

lemma banner_effect_journal:
  "journal (snd (banner_effect d h)) = journal h
   \<or> journal (snd (banner_effect d h)) = journal h @ [SetItem storageKey (if d then ''1'' else ''0'')]"
  by (cases "storageMode h") (auto simp: banner_effect_def setItem_def)

lemma hasDocument_getInitial: "hasDocument (snd (getInitial h)) = hasDocument h"
  by (cases "storageMode h")
     (auto simp: getInitial_def getInitial_try_def getItem_def split: option.splits)

lemma storageMode_getInitial: "storageMode (snd (getInitial h)) = storageMode h"
  by (cases "storageMode h")
     (auto simp: getInitial_def getInitial_try_def getItem_def split: option.splits)

text \<open>
  Claim C1, as amended. In every host where reading the store does not throw (there is
  no window, or the store is absent or readable), \<^verbatim>\<open>getInitial\<close> returns what the
  precedence persisted value, OS signal, default gives: a persisted \<^verbatim>\<open>"dark"\<close> or
  \<^verbatim>\<open>"light"\<close> whatever the OS signal says, otherwise \<^verbatim>\<open>"dark"\<close> when the OS signal
  reports dark and \<^verbatim>\<open>"light"\<close> when it does not.
\<close>

theorem getInitial_precedence:
  assumes "hasWindow h \<longrightarrow> storageMode h \<noteq> Denied"
  shows "fst (getInitial h) = Inr (spec_initial (persisted h) (osDark h))"
  using assms
  by (cases "storageMode h")
     (auto simp: getInitial_def getInitial_try_def getItem_def persisted_def osDark_def
        spec_initial_def prefersDark_def split: option.splits media.splits)

theorem getInitial_precedence_witness:
  "hasWindow (fresh_host\<lparr>items := [theme_key \<mapsto> ''light'']\<rparr>)
   \<and> storageMode (fresh_host\<lparr>items := [theme_key \<mapsto> ''light'']\<rparr>) = Avail
   \<and> osDark (fresh_host\<lparr>items := [theme_key \<mapsto> ''light'']\<rparr>)
   \<and> fst (getInitial (fresh_host\<lparr>items := [theme_key \<mapsto> ''light'']\<rparr>)) = Inr ''light''"
  using getInitial_precedence [of "fresh_host\<lparr>items := [theme_key \<mapsto> ''light'']\<rparr>"]
  by (simp add: fresh_host_def persisted_def osDark_def spec_initial_def prefersDark_def)

text \<open>
  The claim as stated fails where the store is blocked: nothing is persisted, the OS
  signal reports dark, and \<^verbatim>\<open>getInitial\<close> returns \<^verbatim>\<open>"light"\<close>.
\<close>

theorem getInitial_denied_counterexample:
  "persisted denied_host = None \<and> osDark denied_host
   \<and> spec_initial (persisted denied_host) (osDark denied_host) = ''dark''
   \<and> fst (getInitial denied_host) = Inr ''light''"
  by (simp add: denied_host_def fresh_host_def persisted_def osDark_def spec_initial_def
      prefersDark_def getInitial_def getInitial_try_def getItem_def)

text \<open>
  Claim C10. When reading the persisted theme throws, \<^verbatim>\<open>getInitial\<close> returns
  \<^verbatim>\<open>"light"\<close> and leaves the host as it was, whatever the OS colour-scheme signal is,
  also when it reports dark: the exception leaves the \<^verbatim>\<open>try\<close> block before the query.
\<close>

theorem getInitial_storage_throws:
  assumes "hasWindow h" "storageMode h = Denied"
  shows "getInitial h = (Inr ''light'', h)
     \<and> getInitial (h\<lparr>colorScheme := Matches True\<rparr>)
         = (Inr ''light'', h\<lparr>colorScheme := Matches True\<rparr>)
     \<and> fst (getInitial_try h) = Inl SecurityError"
  using assms by (simp add: getInitial_def getInitial_try_def getItem_def)

theorem getInitial_storage_throws_witness:
  "hasWindow denied_host \<and> storageMode denied_host = Denied \<and> prefersDark denied_host
   \<and> getInitial denied_host = (Inr ''light'', denied_host)"
  using getInitial_storage_throws [of denied_host]
  by (simp add: denied_host_def fresh_host_def prefersDark_def)

text \<open>
  Claim C8. When the storage API is missing or throws (the store is absent, blocked or
  full), no operation of the theme hook throws: mounting yields a theme, \<^verbatim>\<open>"dark"\<close> or
  \<^verbatim>\<open>"light"\<close>, toggling yields the flipped theme, nothing is stored, and the class of the
  document root follows the theme held in memory.
\<close>

theorem theme_ops_never_throw:
  assumes "storageMode h \<noteq> Avail"
  shows "(\<exists>v h'. theme_mount h = Inr (v, h') \<and> (v = ''dark'' \<or> v = ''light'')
            \<and> items h' = items h \<and> (hasDocument h \<longrightarrow> rootDark h' = (v = ''dark'')))
       \<and> (\<exists>h'. toggle (t, h) = Inr (flip t, h') \<and> items h' = items h
            \<and> (hasDocument h \<longrightarrow> rootDark h' = (flip t = ''dark'')))
       \<and> (\<exists>v. fst (getInitial h) = Inr v)
       \<and> fst (theme_effect t h) = Inr ()"
proof -
  obtain v where v: "fst (getInitial h) = Inr v" "v = ''dark'' \<or> v = ''light''"
    using getInitial_result by blast
  define h1 where "h1 = snd (getInitial h)"
  have g: "getInitial h = (Inr v, h1)"
    using v(1) by (simp add: h1_def prod_eq_iff)
  have m1: "storageMode h1 \<noteq> Avail"
    using assms by (simp add: h1_def storageMode_getInitial)
  define h2 where "h2 = snd (theme_effect v h1)"
  define h3 where "h3 = snd (theme_effect (flip t) h)"
  have e: "theme_effect v h1 = (Inr (), h2)"
    by (simp add: h2_def prod_eq_iff theme_effect_result)
  have mount: "theme_mount h = Inr (v, h2)"
    by (simp add: theme_mount_def g e)
  have i1: "items h2 = items h"
    using m1 by (simp add: h2_def theme_effect_items h1_def getInitial_items)
  have r1: "hasDocument h \<longrightarrow> rootDark h2 = (v = ''dark'')"
    by (simp add: h2_def theme_effect_root h1_def hasDocument_getInitial)
  have f: "flip t \<noteq> t" by (auto simp: flip_def)
  have e2: "theme_effect (flip t) h = (Inr (), h3)"
    by (simp add: h3_def prod_eq_iff theme_effect_result)
  have tg: "toggle (t, h) = Inr (flip t, h3)"
    using f by (simp add: toggle_def Let_def e2)
  have i3: "items h3 = items h"
    using assms by (simp add: h3_def theme_effect_items)
  have r3: "hasDocument h \<longrightarrow> rootDark h3 = (flip t = ''dark'')"
    by (simp add: h3_def theme_effect_root)
  show ?thesis
    using mount v i1 r1 tg i3 r3 by (simp add: theme_effect_result)
qed

theorem theme_ops_never_throw_witness:
  "storageMode denied_host \<noteq> Avail
   \<and> (\<exists>h'. theme_mount denied_host = Inr (''light'', h') \<and> \<not> rootDark h')
   \<and> (\<exists>h'. toggle (''light'', denied_host) = Inr (''dark'', h') \<and> rootDark h')"
proof -
  have m: "storageMode denied_host \<noteq> Avail" by (simp add: denied_host_def fresh_host_def)
  have d: "hasDocument denied_host" by (simp add: denied_host_def fresh_host_def)
  have g: "fst (getInitial denied_host) = Inr ''light''"
    by (simp add: denied_host_def fresh_host_def getInitial_def getInitial_try_def getItem_def)
  from theme_ops_never_throw [OF m, of "''light''"] d g show ?thesis
    by (auto simp: m flip_def theme_mount_def split: prod.splits sum.splits)
qed


lemma access_ok_keys:
  "access_ok (GetItem theme_key)" "access_ok (GetItem storageKey)"
  "t = ''dark'' \<or> t = ''light'' \<Longrightarrow> access_ok (SetItem theme_key t)"
  "access_ok (SetItem storageKey (if d then ''1'' else ''0''))"
  by (auto simp: theme_key_def storageKey_def)

lemma page_mount_ok:
  assumes "list_all access_ok (journal h)"
  shows "\<exists>p. page_mount h = Inr p \<and> page_ok p"
proof -
  obtain tp where tp: "fst (getInitial h) = Inr tp" "tp = ''dark'' \<or> tp = ''light''"
    using getInitial_result by blast
  define h1 where "h1 = snd (getInitial h)"
  obtain d where d: "fst (banner_getInitial h1) = Inr d"
    using banner_getInitial_result by blast
  define h2 where "h2 = snd (banner_getInitial h1)"
  obtain th where th: "fst (getInitial h2) = Inr th" "th = ''dark'' \<or> th = ''light''"
    using getInitial_result by blast
  define h3 where "h3 = snd (getInitial h2)"
  define h4 where "h4 = snd (banner_effect d h3)"
  define h5 where "h5 = snd (theme_effect th h4)"
  define h6 where "h6 = snd (theme_effect tp h5)"
  have e1: "getInitial h = (Inr tp, h1)" using tp by (simp add: h1_def prod_eq_iff)
  have e2: "banner_getInitial h1 = (Inr d, h2)" using d by (simp add: h2_def prod_eq_iff)
  have e3: "getInitial h2 = (Inr th, h3)" using th by (simp add: h3_def prod_eq_iff)
  have e4: "banner_effect d h3 = (Inr (), h4)"
    by (simp add: h4_def prod_eq_iff banner_effect_result)
  have e5: "theme_effect th h4 = (Inr (), h5)"
    by (simp add: h5_def prod_eq_iff theme_effect_result)
  have e6: "theme_effect tp h5 = (Inr (), h6)"
    by (simp add: h6_def prod_eq_iff theme_effect_result)
  have m: "page_mount h = Inr \<lparr>themePage = tp, themeHeader = th, dismissed = d, env = h6\<rparr>"
    by (simp add: page_mount_def e1 e2 e3 e4 e5 e6)
  have j1: "list_all access_ok (journal h1)"
    using assms getInitial_journal [of h] access_ok_keys(1) by (auto simp: h1_def)
  have j2: "list_all access_ok (journal h2)"
    using j1 banner_getInitial_journal [of h1] access_ok_keys(2) by (auto simp: h2_def)
  have j3: "list_all access_ok (journal h3)"
    using j2 getInitial_journal [of h2] access_ok_keys(1) by (auto simp: h3_def)
  have j4: "list_all access_ok (journal h4)"
    using j3 banner_effect_journal [of d h3] access_ok_keys(4) [of d] by (auto simp: h4_def)
  have j5: "list_all access_ok (journal h5)"
    using j4 theme_effect_journal [of th h4] access_ok_keys(3) [OF th(2)] by (auto simp: h5_def)
  have j6: "list_all access_ok (journal h6)"
    using j5 theme_effect_journal [of tp h5] access_ok_keys(3) [OF tp(2)] by (auto simp: h6_def)
  show ?thesis using m j6 tp(2) th(2) by (simp add: page_ok_def)
qed

lemma toggle_ok:
  assumes "list_all access_ok (journal h)"
  shows "\<exists>h'. toggle (t0, h) = Inr (flip t0, h') \<and> list_all access_ok (journal h')
           \<and> (flip t0 = ''dark'' \<or> flip t0 = ''light'')"
proof -
  define t where "t = flip t0"
  define h' where "h' = snd (theme_effect t h)"
  have tv: "t = ''dark'' \<or> t = ''light''" by (auto simp: t_def flip_def)
  have ne: "t \<noteq> t0" by (auto simp: t_def flip_def)
  have e: "theme_effect t h = (Inr (), h')"
    by (simp add: h'_def prod_eq_iff theme_effect_result)
  have tg: "toggle (t0, h) = Inr (t, h')"
    using ne e by (simp add: toggle_def Let_def t_def)
  have j: "list_all access_ok (journal h')"
    using assms theme_effect_journal [of t h] access_ok_keys(3) [OF tv]
    by (auto simp: h'_def)
  show ?thesis using tg j tv by (auto simp: t_def)
qed

lemma page_step_ok:
  assumes "page_ok p"
  shows "\<exists>p'. page_step ev p = Inr p' \<and> page_ok p'"
proof (cases ev)
  case ClickHeaderToggle
  have j: "list_all access_ok (journal (env p))" using assms by (simp add: page_ok_def)
  from toggle_ok [OF j, of "themeHeader p"] obtain h' where
    h': "toggle (themeHeader p, env p) = Inr (flip (themeHeader p), h')"
        "list_all access_ok (journal h')"
        "flip (themeHeader p) = ''dark'' \<or> flip (themeHeader p) = ''light''"
    by blast
  show ?thesis using ClickHeaderToggle h' assms by (simp add: page_step_def page_ok_def)
next
  case ClickFloatingToggle
  have j: "list_all access_ok (journal (env p))" using assms by (simp add: page_ok_def)
  from toggle_ok [OF j, of "themePage p"] obtain h' where
    h': "toggle (themePage p, env p) = Inr (flip (themePage p), h')"
        "list_all access_ok (journal h')"
        "flip (themePage p) = ''dark'' \<or> flip (themePage p) = ''light''"
    by blast
  show ?thesis using ClickFloatingToggle h' assms by (simp add: page_step_def page_ok_def)
next
  case ClickDismiss
  show ?thesis
  proof (cases "dismissed p")
    case True
    then show ?thesis using ClickDismiss assms by (simp add: page_step_def dismiss_def page_ok_def)
  next
    case False
    define h where "h = snd (banner_effect True (env p))"
    have e: "banner_effect True (env p) = (Inr (), h)"
      by (simp add: h_def prod_eq_iff banner_effect_result)
    have j: "list_all access_ok (journal h)"
      using assms banner_effect_journal [of True "env p"] access_ok_keys(4) [of True]
      by (auto simp: h_def page_ok_def)
    show ?thesis using ClickDismiss False e j assms
      by (simp add: page_step_def dismiss_def page_ok_def)
  qed
qed

lemma page_run_ok:
  "page_ok p \<Longrightarrow> \<exists>p'. page_run evs (Inr p) = Inr p' \<and> page_ok p'"
proof (induction evs arbitrary: p)
  case Nil
  then show ?case by simp
next
  case (Cons ev evs)
  from page_step_ok [OF Cons.prems, of ev] obtain q where q: "page_step ev p = Inr q" "page_ok q"
    by blast
  from Cons.IH [OF q(2)] q(1) show ?case by simp
qed

text \<open>
  Claim C7, as amended. Through mounting the page, with its two theme hooks and its
  banner, and any sequence of clicks on the two theme toggles and on Dismiss, no
  exception escapes and every access to the store is under one of the two keys
  \<^verbatim>\<open>edusphar-theme\<close> and \<^verbatim>\<open>edusphar-announce-dismissed\<close>; what is written is \<^verbatim>\<open>"dark"\<close> or
  \<^verbatim>\<open>"light"\<close> under the first and \<^verbatim>\<open>"0"\<close> or \<^verbatim>\<open>"1"\<close> under the second.
\<close>

theorem store_accesses:
  assumes "list_all access_ok (journal h)"
  shows "\<exists>p. page_run evs (page_mount h) = Inr p \<and> list_all access_ok (journal (env p))"
proof -
  from page_mount_ok [OF assms] obtain p0 where p0: "page_mount h = Inr p0" "page_ok p0"
    by blast
  from page_run_ok [OF p0(2), of evs] p0(1) show ?thesis by (auto simp: page_ok_def)
qed

theorem store_accesses_witness:
  "list_all access_ok (journal fresh_host)
   \<and> (\<exists>p. page_run [ClickHeaderToggle, ClickFloatingToggle, ClickDismiss] (page_mount fresh_host)
            = Inr p
          \<and> list_all access_ok (journal (env p)))"
  using store_accesses [of fresh_host "[ClickHeaderToggle, ClickFloatingToggle, ClickDismiss]"]
  by (simp add: fresh_host_def)

lemma page_mount_fresh:
  "page_journal (page_mount fresh_host) =
     [GetItem ''edusphar-theme'', GetItem ''edusphar-announce-dismissed'',
      GetItem ''edusphar-theme'', SetItem ''edusphar-announce-dismissed'' ''0'',
      SetItem ''edusphar-theme'' ''dark'', SetItem ''edusphar-theme'' ''dark'']"
  by (simp add: page_journal_def page_mount_def fresh_host_def banner_getInitial_def getInitial_def
      getInitial_try_def getItem_def banner_effect_def theme_effect_def setItem_def
      prefersDark_def theme_key_def storageKey_def)

text \<open>
  With the key names as the claim states them, \<^verbatim>\<open>theme\<close> and \<^verbatim>\<open>announce-dismissed\<close>,
  already the six accesses of mounting the page on an empty store are not as claimed.
\<close>

theorem store_keys_counterexample:
  "page_journal (page_mount fresh_host) =
     [GetItem ''edusphar-theme'', GetItem ''edusphar-announce-dismissed'',
      GetItem ''edusphar-theme'', SetItem ''edusphar-announce-dismissed'' ''0'',
      SetItem ''edusphar-theme'' ''dark'', SetItem ''edusphar-theme'' ''dark'']
   \<and> \<not> list_all spec_access_ok (page_journal (page_mount fresh_host))"
  by (simp add: page_mount_fresh)

text \<open>
  Claim C6 at a store without a banner entry: mounting the banner, with no dismissal,
  reads the entry and then writes \<^verbatim>\<open>"0"\<close> under the banner key, so the entry does not
  stay unchanged.
\<close>

theorem banner_mount_writes:
  "items fresh_host storageKey = None
   \<and> map_sum id (\<lambda>s. (fst s, items (snd s) storageKey, journal (snd s))) (banner_mount fresh_host)
       = Inr (False, Some ''0'', [GetItem storageKey, SetItem storageKey ''0''])"
  by (simp add: banner_mount_def fresh_host_def banner_getInitial_def getItem_def
      banner_effect_def setItem_def)


section \<open>Properties of the rounding\<close>












section \<open>Properties of the animated counter\<close>


































section \<open>Properties of the scroll header\<close>













section \<open>Properties of the mobile sheet\<close>

text \<open>
  Claim C4 at a state of the page with the sheet open: the floating theme toggle lies
  outside the sheet and is drawn above the overlay, so a pointer action can give it
  focus. The handler then finds the index \<open>-1\<close> for the active element, takes neither
  of its two branches, and the browser's own handling of the key moves focus on:
  Shift+Tab to the content of the page behind the overlay, Tab to the first element of
  the page. The sheet stays open and focus is outside it.
\<close>

theorem focus_escapes:
  "indexOf sheet_elements FloatingToggle = - 1
   \<and> mobileOpen (nav_run can_focus sheet_elements tab_order
        [OpenMenu, PointerFocus FloatingToggle, KeyDown (Tab True)] (nav_init MenuButton))
   \<and> active (nav_run can_focus sheet_elements tab_order
        [OpenMenu, PointerFocus FloatingToggle, KeyDown (Tab True)] (nav_init MenuButton))
       = PageContent
   \<and> mobileOpen (nav_run can_focus sheet_elements tab_order
        [OpenMenu, PointerFocus FloatingToggle, KeyDown (Tab False)] (nav_init MenuButton))
   \<and> active (nav_run can_focus sheet_elements tab_order
        [OpenMenu, PointerFocus FloatingToggle, KeyDown (Tab False)] (nav_init MenuButton))
       = SkipLink
   \<and> PageContent \<notin> set sheet_elements \<and> SkipLink \<notin> set sheet_elements"
  by code_simp

lemma open_state:
  assumes "sheet \<noteq> []" "can (hd sheet)" "trap s = None" "\<not> mobileOpen s"
  shows "setMobileOpen can sheet True s
           = \<lparr>mobileOpen = True, active = hd sheet, trap = Some (active s, sheet)\<rparr>"
  using assms
  by (cases sheet; cases s)
     (simp_all add: setMobileOpen_def close_cleanup_def open_effect_def focus_def)

lemma close_state:
  assumes "trap s = Some (p, f)" "mobileOpen s" "can p"
  shows "setMobileOpen can sheet False s = \<lparr>mobileOpen = False, active = p, trap = None\<rparr>"
  using assms by (cases s) (simp add: setMobileOpen_def close_cleanup_def focus_def)

lemma onKey_tab_frame:
  "trap (onKey can sheet doc (Tab sh) s) = trap s"
  "mobileOpen (onKey can sheet doc (Tab sh) s) = mobileOpen s"
  by (auto simp: onKey_def tab_default_def focus_def Let_def split: option.splits list.splits)

lemma setMobileOpen_wf:
  assumes "nav_wf s"
  shows "nav_wf (setMobileOpen can sheet b s)"
  using assms
  by (auto simp: nav_wf_def setMobileOpen_def close_cleanup_def open_effect_def focus_def Let_def
      split: option.splits list.splits)

lemma nav_wf_step: "nav_wf s \<Longrightarrow> nav_wf (nav_step can sheet doc s ev)"
proof (cases ev)
  case (KeyDown k)
  assume w: "nav_wf s"
  show ?thesis
  proof (cases k)
    case Escape
    then show ?thesis using KeyDown w setMobileOpen_wf [OF w, of can sheet False]
      by (simp add: onKey_def)
  next
    case (Tab sh)
    then show ?thesis using KeyDown w by (simp add: nav_wf_def onKey_tab_frame)
  next
    case OtherKey
    then show ?thesis using KeyDown w by (simp add: onKey_def)
  qed
next
  case (PointerFocus e)
  assume "nav_wf s"
  then show ?thesis using PointerFocus by (simp add: nav_wf_def)
qed (simp_all add: setMobileOpen_wf)

lemma nav_wf_run: "nav_wf s \<Longrightarrow> nav_wf (nav_run can sheet doc evs s)"
proof (induction evs arbitrary: s)
  case Nil
  then show ?case by (simp add: nav_run_def)
next
  case (Cons ev evs)
  from Cons.IH [OF nav_wf_step [OF Cons.prems, of can sheet doc ev]] show ?case
    by (simp add: nav_run_def)
qed

lemma nav_wf_init: "nav_wf (nav_init a)"
  by (simp add: nav_wf_def nav_init_def)

lemma open_step_keeps:
  assumes "trap s = Some (p, f)" "mobileOpen s" "\<not> closing ev"
  shows "trap (nav_step can sheet doc s ev) = Some (p, f)
       \<and> mobileOpen (nav_step can sheet doc s ev)"
proof (cases ev)
  case OpenMenu
  then show ?thesis using assms by (simp add: setMobileOpen_def)
next
  case (KeyDown k)
  then show ?thesis using assms by (cases k) (simp_all add: onKey_tab_frame, simp add: onKey_def)
qed (use assms in simp_all)

lemma open_run_keeps:
  assumes "list_all (\<lambda>ev. \<not> closing ev) evs"
  shows "trap s = Some (p, f) \<Longrightarrow> mobileOpen s \<Longrightarrow>
     trap (nav_run can sheet doc evs s) = Some (p, f) \<and> mobileOpen (nav_run can sheet doc evs s)"
  using assms
proof (induction evs arbitrary: s)
  case Nil
  then show ?case by (simp add: nav_run_def)
next
  case (Cons ev evs)
  have nc: "\<not> closing ev" and rest: "list_all (\<lambda>ev. \<not> closing ev) evs"
    using Cons.prems(3) by simp_all
  note k = open_step_keeps [OF Cons.prems(1,2) nc, of can sheet doc]
  from Cons.IH [OF _ _ rest, of "nav_step can sheet doc s ev"] k show ?case
    by (simp add: nav_run_def)
qed

lemma closing_step:
  assumes "trap s = Some (p, f)" "mobileOpen s" "closing ev" "can p"
  shows "nav_step can sheet doc s ev = \<lparr>mobileOpen = False, active = p, trap = None\<rparr>"
proof -
  have "nav_step can sheet doc s ev = setMobileOpen can sheet False s"
    using assms(1,3) by (cases ev rule: closing.cases) (simp_all add: onKey_def)
  then show ?thesis using close_state [where can = can, OF assms(1,2,4)] by simp
qed

text \<open>
  Claim C9, as amended. From any reachable state in which the sheet is closed, opening
  it captures the active element and moves focus to the first focusable element of the
  sheet; the sheet stays open under events that do not close it, also when they move
  focus; Escape closes it; and every closing event (the close button, a click on the
  overlay, Escape) leaves the sheet closed, the listener detached and, when the
  captured element can take focus, that element active again.
\<close>

theorem sheet_focus_lifecycle:
  assumes "sheet \<noteq> []" "can (hd sheet)"
    and "\<not> mobileOpen (nav_run can sheet doc evs0 (nav_init a))"
    and "can (active (nav_run can sheet doc evs0 (nav_init a)))"
    and "list_all (\<lambda>ev. \<not> closing ev) evs"
    and "closing ev"
  shows "mobileOpen (nav_step can sheet doc (nav_run can sheet doc evs0 (nav_init a)) OpenMenu)
       \<and> trap (nav_step can sheet doc (nav_run can sheet doc evs0 (nav_init a)) OpenMenu)
           = Some (active (nav_run can sheet doc evs0 (nav_init a)), sheet)
       \<and> active (nav_step can sheet doc (nav_run can sheet doc evs0 (nav_init a)) OpenMenu)
           = hd sheet
       \<and> mobileOpen (nav_run can sheet doc evs
            (nav_step can sheet doc (nav_run can sheet doc evs0 (nav_init a)) OpenMenu))
       \<and> \<not> mobileOpen (nav_step can sheet doc (nav_run can sheet doc evs
            (nav_step can sheet doc (nav_run can sheet doc evs0 (nav_init a)) OpenMenu))
            (KeyDown Escape))
       \<and> nav_step can sheet doc (nav_run can sheet doc evs
            (nav_step can sheet doc (nav_run can sheet doc evs0 (nav_init a)) OpenMenu)) ev
           = \<lparr>mobileOpen = False, active = active (nav_run can sheet doc evs0 (nav_init a)),
              trap = None\<rparr>"
proof -
  define s0 where "s0 = nav_run can sheet doc evs0 (nav_init a)"
  define s1 where "s1 = nav_step can sheet doc s0 OpenMenu"
  define s2 where "s2 = nav_run can sheet doc evs s1"
  have w0: "nav_wf s0" unfolding s0_def by (rule nav_wf_run [OF nav_wf_init])
  have c0: "\<not> mobileOpen s0" using assms(3) by (simp add: s0_def)
  have f0: "can (active s0)" using assms(4) by (simp add: s0_def)
  have t0: "trap s0 = None" using w0 c0 by (cases "trap s0") (simp_all add: nav_wf_def)
  have e1: "s1 = \<lparr>mobileOpen = True, active = hd sheet, trap = Some (active s0, sheet)\<rparr>"
    unfolding s1_def using open_state [where can = can, OF assms(1,2) t0 c0] by simp
  have o1: "trap s1 = Some (active s0, sheet)" "mobileOpen s1" "active s1 = hd sheet"
    by (simp_all add: e1)
  note k = open_run_keeps [OF assms(5) o1(1,2), of can sheet doc, folded s2_def]
  have t2: "trap s2 = Some (active s0, sheet)" and o2: "mobileOpen s2" using k by simp_all
  have esc: "closing (KeyDown Escape :: 'a nav_event)" by simp
  note c3 = closing_step [where can = can and sheet = sheet and doc = doc, OF t2 o2 assms(6) f0]
  note c4 = closing_step [where can = can and sheet = sheet and doc = doc, OF t2 o2 esc f0]
  show ?thesis
    unfolding s0_def [symmetric] s1_def [symmetric] s2_def [symmetric]
    using o1 o2 c3 c4 by simp
qed

lemma sheet_closed_start:
  "\<not> mobileOpen (nav_run can_focus sheet_elements tab_order [OpenMenu, CloseMenu]
        (nav_init MenuButton))
   \<and> active (nav_run can_focus sheet_elements tab_order [OpenMenu, CloseMenu]
        (nav_init MenuButton)) = MenuButton"
  by code_simp

theorem sheet_focus_lifecycle_witness:
  "sheet_elements \<noteq> [] \<and> can_focus (hd sheet_elements)
   \<and> \<not> mobileOpen (nav_run can_focus sheet_elements tab_order [OpenMenu, CloseMenu]
          (nav_init MenuButton))
   \<and> can_focus (active (nav_run can_focus sheet_elements tab_order [OpenMenu, CloseMenu]
          (nav_init MenuButton)))
   \<and> list_all (\<lambda>ev. \<not> closing ev)
        [KeyDown (Tab False), PointerFocus FloatingToggle, KeyDown (Tab False)]
   \<and> closing (KeyDown Escape :: element nav_event)
   \<and> active (nav_step can_focus sheet_elements tab_order
        (nav_run can_focus sheet_elements tab_order [OpenMenu, CloseMenu] (nav_init MenuButton))
        OpenMenu)
       = SheetClose
   \<and> nav_step can_focus sheet_elements tab_order
        (nav_run can_focus sheet_elements tab_order
          [KeyDown (Tab False), PointerFocus FloatingToggle, KeyDown (Tab False)]
          (nav_step can_focus sheet_elements tab_order
            (nav_run can_focus sheet_elements tab_order [OpenMenu, CloseMenu]
              (nav_init MenuButton))
            OpenMenu))
        (KeyDown Escape)
       = \<lparr>mobileOpen = False, active = MenuButton, trap = None\<rparr>"
proof -
  have ne: "sheet_elements \<noteq> []" by (simp add: sheet_elements_def)
  have hd: "hd sheet_elements = SheetClose" by (simp add: sheet_elements_def)
  have ch: "can_focus (hd sheet_elements)" by (simp add: hd can_focus_def)
  have cl: "\<not> mobileOpen (nav_run can_focus sheet_elements tab_order [OpenMenu, CloseMenu]
      (nav_init MenuButton))"
    using sheet_closed_start by simp
  have ca: "can_focus (active (nav_run can_focus sheet_elements tab_order [OpenMenu, CloseMenu]
      (nav_init MenuButton)))"
    using sheet_closed_start by (simp add: can_focus_def)
  have nc: "list_all (\<lambda>ev. \<not> closing ev)
      [KeyDown (Tab False), PointerFocus FloatingToggle, KeyDown (Tab False)]"
    by simp
  have es: "closing (KeyDown Escape :: element nav_event)" by simp
  from sheet_focus_lifecycle [OF ne ch cl ca nc es] sheet_closed_start ne ch ca nc hd
  show ?thesis by simp
qed

text \<open>
  The claim as stated, for whatever element is active at entry, fails when nothing has
  focus at entry: \<^verbatim>\<open>document.body\<close> is captured, it cannot take focus, and after
  Escape the close button of the sheet is still the active element.
\<close>

theorem sheet_focus_counterexample:
  "trap (nav_run can_focus sheet_elements tab_order [OpenMenu] (nav_init Body))
     = Some (Body, sheet_elements)
   \<and> mobileOpen (nav_run can_focus sheet_elements tab_order [OpenMenu, KeyDown Escape]
        (nav_init Body)) = False
   \<and> active (nav_run can_focus sheet_elements tab_order [OpenMenu, KeyDown Escape]
        (nav_init Body)) = SheetClose"
  by code_simp


end
